theory Spec2Isabelle
  imports Main "HOL-Library.Word" "HOL-Library.Sublist"
begin

section \<open>Python values used by the image fetcher\<close>

text \<open>
  A Python \<open>str\<close> is a sequence of Unicode code points and is modelled as a list of
  natural numbers; \<open>asc\<close> turns an ASCII literal into such a list. Header values reach
  the program decoded as Latin-1, so every code point of a header value is below 256.
  \<open>bytes\<close> are lists of 8-bit words.
\<close>

type_synonym pystr = "nat list"
type_synonym bytes = "8 word list"

definition asc :: "string \<Rightarrow> pystr" where
  "asc s = map of_char s"

text \<open>
  \<open>str.lower()\<close>, code point by code point. The mapping is Python's for every code
  point below 256 (ASCII capitals and the Latin-1 capitals other than the multiplication
  sign) and for the three status glyphs of the messages; the Unicode case tables above
  255 are not part of the model and those code points are left as they are. No code
  point above 255 lowers to a letter of \<open>image/\<close> or \<open>duplicate\<close> without a combining
  mark after it, so the two tests the program makes on lower-cased text come out as in
  Python.
\<close>

definition lower_cp :: "nat \<Rightarrow> nat" where
  "lower_cp c =
     (if (65 \<le> c \<and> c \<le> 90) \<or> (192 \<le> c \<and> c \<le> 222 \<and> c \<noteq> 215) then c + 32 else c)"

definition lower :: "pystr \<Rightarrow> pystr" where
  "lower s = map lower_cp s"

text \<open>\<open>needle in haystack\<close> for strings.\<close>

fun contains :: "pystr \<Rightarrow> pystr \<Rightarrow> bool" where
  "contains needle [] = (needle = [])"
| "contains needle (c # cs) = (prefix needle (c # cs) \<or> contains needle cs)"

text \<open>\<open>str(n)\<close> for a natural number: its decimal digits.\<close>

fun str_nat :: "nat \<Rightarrow> pystr" where
  "str_nat n = (if n < 10 then [48 + n] else str_nat (n div 10) @ [48 + n mod 10])"

declare str_nat.simps [simp del]

subsection \<open>Exceptions\<close>

text \<open>
  The exception classes that the operations of the program raise, each with the data
  its handler prints. \<open>ConnectTimeout\<close> is a subclass of both \<open>ConnectionError\<close> and
  \<open>Timeout\<close>; \<open>RequestException\<close> stands for the remaining classes of the
  \<open>requests\<close> hierarchy, \<open>OSError\<close> (Python 3's \<open>IOError\<close>) for the file system's
  errors, \<open>OtherException\<close> for any further subclass of \<open>Exception\<close>. The text
  carried is \<open>str(e)\<close>; an \<open>HTTPError\<close> also carries the status code and the reason
  of its response. \<open>KeyboardInterrupt\<close> and \<open>SystemExit\<close> are no subclasses of
  \<open>Exception\<close>, are not errors of an operation, and are outside the model.
\<close>

datatype exn =
    Timeout pystr
  | ConnectTimeout pystr
  | HTTPError pystr nat pystr
  | ConnectionError pystr
  | RequestException pystr
  | OSError pystr
  | ValueError pystr
  | OverflowError pystr
  | OtherException pystr

subsection \<open>\<open>int(s)\<close> on a string\<close>

text \<open>
  CPython's \<open>int\<close> in base 10: white space is stripped on both sides, one sign may
  follow, then decimal digits, single underscores allowed between two digits; anything
  else is a \<open>ValueError\<close>, and so is a literal of more than 4300 digits. The white
  space is Unicode's (\<open>str.isspace\<close>); of the decimal digits only the ASCII ones are
  modelled, which are all there are below code point 256.
\<close>

definition is_space :: "nat \<Rightarrow> bool" where
  "is_space c =
     ((9 \<le> c \<and> c \<le> 13) \<or> (28 \<le> c \<and> c \<le> 32) \<or> c = 133 \<or> c = 160 \<or> c = 5760 \<or>
      (8192 \<le> c \<and> c \<le> 8202) \<or> c = 8232 \<or> c = 8233 \<or> c = 8239 \<or> c = 8287 \<or> c = 12288)"

definition is_digit :: "nat \<Rightarrow> bool" where
  "is_digit c = (48 \<le> c \<and> c \<le> 57)"

definition strip :: "pystr \<Rightarrow> pystr" where
  "strip s = rev (dropWhile is_space (rev (dropWhile is_space s)))"

text \<open>
  The digits of a literal, most significant first; \<open>prev\<close> says that the character
  before was a digit, which an underscore and the end of the literal both need.
\<close>

fun scan_digits :: "pystr \<Rightarrow> bool \<Rightarrow> nat list option" where
  "scan_digits [] prev = (if prev then Some [] else None)"
| "scan_digits (c # cs) prev =
     (if is_digit c then map_option ((#) (c - 48)) (scan_digits cs True)
      else if c = 95 \<and> prev then scan_digits cs False
      else None)"

definition digits_value :: "nat list \<Rightarrow> int" where
  "digits_value ds = foldl (\<lambda>a d. 10 * a + int d) 0 ds"

text \<open>
  \<open>repr(s)\<close>, which the error text of \<open>int\<close> quotes the literal with: exact for code
  points below 256 (no unprintable code point above 255 is escaped by the model).
\<close>

definition hex_digit :: "nat \<Rightarrow> nat" where
  "hex_digit d = (if d < 10 then 48 + d else 87 + d)"

definition repr_cp :: "nat \<Rightarrow> nat \<Rightarrow> pystr" where
  "repr_cp quote c =
     (if c = quote \<or> c = 92 then [92, c]
      else if c = 9 then [92, 116]
      else if c = 10 then [92, 110]
      else if c = 13 then [92, 114]
      else if c < 32 \<or> (127 \<le> c \<and> c \<le> 160) \<or> c = 173
        then [92, 120, hex_digit (c div 16), hex_digit (c mod 16)]
      else [c])"

definition py_repr :: "pystr \<Rightarrow> pystr" where
  "py_repr s =
     (let quote = (if 39 \<in> set s \<and> 34 \<notin> set s then 34 else 39)
      in quote # concat (map (repr_cp quote) s) @ [quote])"

definition max_str_digits :: nat where
  "max_str_digits = 4300"

definition py_int :: "pystr \<Rightarrow> exn + int" where
  "py_int s =
     (let invalid = ValueError (asc ''invalid literal for int() with base 10: '' @ py_repr s);
          t = strip s;
          negative = (t \<noteq> [] \<and> hd t = 45);
          body = (if t \<noteq> [] \<and> (hd t = 43 \<or> hd t = 45) then tl t else t)
      in case scan_digits body False of
           None \<Rightarrow> Inl invalid
         | Some ds \<Rightarrow>
             if max_str_digits < length ds
             then Inl (ValueError
                    (asc ''Exceeds the limit (4300 digits) for integer string conversion: value has ''
                     @ str_nat (length ds)
                     @ asc '' digits; use sys.set_int_max_str_digits() to increase the limit''))
             else Inr (if negative then - digits_value ds else digits_value ds))"

subsection \<open>Floating point: an integer divided by a power of two\<close>

text \<open>
  The program's only floats are \<open>n / (1024 * 1024)\<close> and \<open>n / 1024\<close>. Python's true
  division of integers returns the double nearest to the quotient (ties to even) and
  raises \<open>OverflowError\<close> when that is \<open>2 ^ 1024\<close> or more in magnitude. Dividing by
  \<open>2 ^ k\<close> only changes the exponent, so the result is the integer rounded to 53
  significant bits, over \<open>2 ^ k\<close>: a float is modelled exactly as the pair \<open>(m, k)\<close>
  that stands for \<open>m / 2 ^ k\<close>.
\<close>

type_synonym pyfloat = "int \<times> nat"

fun bit_length :: "nat \<Rightarrow> nat" where
  "bit_length n = (if n = 0 then 0 else Suc (bit_length (n div 2)))"

declare bit_length.simps [simp del]

definition round53 :: "nat \<Rightarrow> nat" where
  "round53 n =
     (let b = bit_length n
      in if b \<le> 53 then n
         else let s = b - 53; q = n div 2 ^ s; r = n mod 2 ^ s; h = 2 ^ (s - 1)
              in (if h < r \<or> (r = h \<and> odd q) then q + 1 else q) * 2 ^ s)"

definition true_div_pow2 :: "int \<Rightarrow> nat \<Rightarrow> exn + pyfloat" where
  "true_div_pow2 n k =
     (let m = round53 (nat \<bar>n\<bar>)
      in if 2 ^ (1024 + k) \<le> m
         then Inl (OverflowError (asc ''integer division result too large for a float''))
         else Inr (if n < 0 then - int m else int m, k))"

definition float_gt :: "pyfloat \<Rightarrow> int \<Rightarrow> bool" where
  "float_gt x c = (case x of (m, k) \<Rightarrow> c * 2 ^ k < m)"

text \<open>
  \<open>f"{x:.1f}"\<close>: the float rounded to one decimal, ties to even on its exact value.
  The program formats only floats that are not negative.
\<close>

definition format_1f :: "pyfloat \<Rightarrow> pystr" where
  "format_1f x =
     (case x of (m, k) \<Rightarrow>
        let t = 10 * nat m; q = t div 2 ^ k; r = t mod 2 ^ k; h = 2 ^ k;
            u = (if h < 2 * r \<or> (2 * r = h \<and> odd q) then q + 1 else q)
        in str_nat (u div 10) @ [46] @ str_nat (u mod 10))"

section \<open>Responses and the header validator\<close>

text \<open>
  Of a response the program reads the status, the two headers \<open>Content-Type\<close> and
  \<open>Content-Length\<close> (\<open>headers.get\<close> gives \<open>None\<close> for an absent one) and the body,
  which is streamed: reading \<open>response.content\<close> may raise.
\<close>

record response =
  url :: pystr
  status_code :: nat
  reason :: pystr
  header_content_type :: "pystr option"
  header_content_length :: "pystr option"
  content :: "exn + bytes"

definition validate_image_headers :: "response \<Rightarrow> exn + (bool \<times> pystr)" where
  "validate_image_headers response =
     (let content_type = lower (case header_content_type response of None \<Rightarrow> [] | Some v \<Rightarrow> v);
          content_length = header_content_length response
      in if \<not> prefix (asc ''image/'') content_type
         then Inr (False, asc ''Content-Type '' @ [39] @ content_type @ [39] @ asc '' is not an image'')
         else
           case content_length of
             None \<Rightarrow> Inr (True, asc ''Valid image headers'')
           | Some v \<Rightarrow>
               if v = [] then Inr (True, asc ''Valid image headers'')
               else
                 (case py_int v of
                    Inl e \<Rightarrow> Inl e
                  | Inr n \<Rightarrow>
                      (case true_div_pow2 n 20 of
                         Inl e \<Rightarrow> Inl e
                       | Inr size_mb \<Rightarrow>
                           if float_gt size_mb 50
                           then Inr (False, asc ''File size ('' @ format_1f size_mb
                                       @ asc ''MB) exceeds safety limit of 50MB'')
                           else Inr (True, asc ''Valid image headers''))))"

section \<open>The filename resolver\<close>

text \<open>
  \<open>urlparse(url).path\<close> as CPython's \<open>urllib.parse\<close> computes it: leading control
  characters and spaces are dropped and tabs and line breaks removed; a scheme is split
  off at the first colon when everything before it is a scheme; a network location
  follows \<open>//\<close> up to the next \<open>/\<close>, \<open>?\<close> or \<open>#\<close>; fragment and query are cut
  off; for the schemes that have them, the parameters after \<open>;\<close> in the last segment
  are cut off too. An unmatched square bracket in the network location is the
  \<open>ValueError\<close> of \<open>urlsplit\<close>; its further checks of a bracketed or non-ASCII host
  are not modelled.
\<close>

definition ascii_alpha :: "nat \<Rightarrow> bool" where
  "ascii_alpha c = ((65 \<le> c \<and> c \<le> 90) \<or> (97 \<le> c \<and> c \<le> 122))"

definition scheme_char :: "nat \<Rightarrow> bool" where
  "scheme_char c = (ascii_alpha c \<or> is_digit c \<or> c = 43 \<or> c = 45 \<or> c = 46)"

definition uses_params :: "pystr list" where
  "uses_params = [[], asc ''ftp'', asc ''hdl'', asc ''prospero'', asc ''http'', asc ''imap'',
     asc ''https'', asc ''shttp'', asc ''rtsp'', asc ''rtspu'', asc ''sip'', asc ''sips'',
     asc ''mms'', asc ''sftp'', asc ''tel'']"

definition basename :: "pystr \<Rightarrow> pystr" where
  "basename p = rev (takeWhile (\<lambda>c. c \<noteq> 47) (rev p))"

definition splitparams :: "pystr \<Rightarrow> pystr" where
  "splitparams path =
     (if 47 \<in> set path
      then (let last_seg = basename path; head = take (length path - length last_seg) path
            in head @ takeWhile (\<lambda>c. c \<noteq> 59) last_seg)
      else takeWhile (\<lambda>c. c \<noteq> 59) path)"

definition urlparse_path :: "pystr \<Rightarrow> exn + pystr" where
  "urlparse_path url0 =
     (let url1 = filter (\<lambda>c. c \<noteq> 9 \<and> c \<noteq> 10 \<and> c \<noteq> 13) (dropWhile (\<lambda>c. c \<le> 32) url0);
          pre = takeWhile (\<lambda>c. c \<noteq> 58) url1;
          has_scheme = (58 \<in> set url1 \<and> pre \<noteq> [] \<and> ascii_alpha (hd url1) \<and> list_all scheme_char pre);
          scheme = (if has_scheme then lower pre else []);
          url2 = (if has_scheme then drop (Suc (length pre)) url1 else url1);
          has_netloc = (take 2 url2 = [47, 47]);
          netloc = (if has_netloc
                    then takeWhile (\<lambda>c. c \<noteq> 47 \<and> c \<noteq> 63 \<and> c \<noteq> 35) (drop 2 url2) else []);
          url3 = (if has_netloc
                  then dropWhile (\<lambda>c. c \<noteq> 47 \<and> c \<noteq> 63 \<and> c \<noteq> 35) (drop 2 url2) else url2);
          url4 = takeWhile (\<lambda>c. c \<noteq> 63) (takeWhile (\<lambda>c. c \<noteq> 35) url3)
      in if (91 \<in> set netloc) \<noteq> (93 \<in> set netloc)
         then Inl (ValueError (asc ''Invalid IPv6 URL''))
         else Inr (if scheme \<in> set uses_params \<and> 59 \<in> set url4 then splitparams url4 else url4))"

definition mime_to_ext :: "(pystr \<times> pystr) list" where
  "mime_to_ext =
     [(asc ''image/jpeg'', asc ''.jpg''),
      (asc ''image/png'', asc ''.png''),
      (asc ''image/gif'', asc ''.gif''),
      (asc ''image/webp'', asc ''.webp''),
      (asc ''image/svg+xml'', asc ''.svg''),
      (asc ''image/bmp'', asc ''.bmp'')]"

text \<open>
  Python salts the hash of a string anew in every process, so \<open>hash\<close> is a parameter
  of the model: any function from strings to integers. \<open>%\<close> with a positive
  modulus is \<open>mod\<close> on \<open>int\<close>.
\<close>

definition get_filename_from_url ::
  "(pystr \<Rightarrow> int) \<Rightarrow> pystr \<Rightarrow> pystr option \<Rightarrow> exn + pystr" where
  "get_filename_from_url hash url_str content_type =
     (case urlparse_path url_str of
        Inl e \<Rightarrow> Inl e
      | Inr path \<Rightarrow>
          let filename = basename path
          in if filename = [] \<or> 46 \<notin> set filename
             then
               let extension =
                     (case content_type of
                        None \<Rightarrow> asc ''.jpg''
                      | Some ct \<Rightarrow>
                          if ct = [] then asc ''.jpg''
                          else (case map_of mime_to_ext (lower ct) of
                                  None \<Rightarrow> asc ''.jpg''
                                | Some ext \<Rightarrow> ext))
               in Inr (asc ''downloaded_image_'' @ str_nat (nat (hash url_str mod 10000)) @ extension)
             else Inr filename)"

section \<open>The file system and the duplicate detector\<close>

text \<open>
  A path is either absent, something that is no directory, or a directory with its
  entries in the order \<open>os.listdir\<close> gives them; an entry is a regular file with its
  bytes or a subdirectory. The file system is assumed to grant reads and writes and
  to have room, and the path of the target directory to be free of NUL characters; a
  new file is listed after the old entries.
\<close>

datatype node = File bytes | Subdir

type_synonym entries = "(pystr \<times> node) list"

datatype dirstate = Missing | NotADirectory | Directory entries

type_synonym filesystem = "pystr \<Rightarrow> dirstate"

text \<open>
  \<open>hashlib.sha256\<close> is a parameter of the model, \<open>sha256\<close>, from bytes to the
  digest; a hash object holds the bytes it has been fed, and its digest is the digest
  of their concatenation. \<open>get_file_hash\<close> feeds the file in blocks of 4096 bytes
  until a read returns nothing.
\<close>

function read_blocks :: "nat \<Rightarrow> bytes \<Rightarrow> bytes list" where
  "read_blocks n bs = (if n = 0 \<or> bs = [] then [] else take n bs # read_blocks n (drop n bs))"
  by pat_completeness auto
termination
  by (relation "measure (\<lambda>(n, bs). length bs)") auto

declare read_blocks.simps [simp del]

definition get_file_hash :: "(bytes \<Rightarrow> 'd) \<Rightarrow> bytes \<Rightarrow> 'd" where
  "get_file_hash sha256 file_bytes =
     sha256 (foldl (\<lambda>fed byte_block. fed @ byte_block) [] (read_blocks 4096 file_bytes))"

fun scan_directory :: "(bytes \<Rightarrow> 'd) \<Rightarrow> 'd \<Rightarrow> entries \<Rightarrow> bool \<times> pystr option" where
  "scan_directory sha256 content_hash [] = (False, None)"
| "scan_directory sha256 content_hash ((filename, File file_bytes) # rest) =
     (if get_file_hash sha256 file_bytes = content_hash then (True, Some filename)
      else scan_directory sha256 content_hash rest)"
| "scan_directory sha256 content_hash ((filename, Subdir) # rest) =
     scan_directory sha256 content_hash rest"

definition is_duplicate ::
  "(bytes \<Rightarrow> 'd) \<Rightarrow> bytes \<Rightarrow> pystr \<Rightarrow> filesystem \<Rightarrow> exn + (bool \<times> pystr option)" where
  "is_duplicate sha256 content_bytes directory fs =
     (let content_hash = sha256 content_bytes
      in case fs directory of
           Missing \<Rightarrow> Inr (False, None)
         | NotADirectory \<Rightarrow>
             Inl (OSError (asc ''[Errno 20] Not a directory: '' @ py_repr directory))
         | Directory es \<Rightarrow> Inr (scan_directory sha256 content_hash es))"

definition makedirs :: "pystr \<Rightarrow> filesystem \<Rightarrow> exn + filesystem" where
  "makedirs directory fs =
     (case fs directory of
        Missing \<Rightarrow> Inr (fs(directory := Directory []))
      | NotADirectory \<Rightarrow> Inl (OSError (asc ''[Errno 17] File exists: '' @ py_repr directory))
      | Directory es \<Rightarrow> Inr fs)"

definition path_join :: "pystr \<Rightarrow> pystr \<Rightarrow> pystr" where
  "path_join a b =
     (if b \<noteq> [] \<and> hd b = 47 then b
      else if a = [] \<or> last a = 47 then a @ b
      else a @ [47] @ b)"

text \<open>
  \<open>open(filepath, 'wb')\<close> and \<open>f.write(content)\<close> for a file name without a slash in
  a directory: an old regular file of that name is replaced, a new one is created, and
  a name that is a directory (\<open>.\<close>, \<open>..\<close> or a subdirectory) cannot be opened.
\<close>

definition write_entry :: "pystr \<Rightarrow> bytes \<Rightarrow> entries \<Rightarrow> entries" where
  "write_entry filename data es =
     (if filename \<in> fst ` set es
      then map (\<lambda>(name, nd). if name = filename then (name, File data) else (name, nd)) es
      else es @ [(filename, File data)])"

definition write_file :: "pystr \<Rightarrow> pystr \<Rightarrow> bytes \<Rightarrow> filesystem \<Rightarrow> exn + filesystem" where
  "write_file directory filename data fs =
     (let filepath = path_join directory filename
      in if 0 \<in> set filepath then Inl (ValueError (asc ''embedded null byte''))
         else
           case fs directory of
             Missing \<Rightarrow>
               Inl (OSError (asc ''[Errno 2] No such file or directory: '' @ py_repr filepath))
           | NotADirectory \<Rightarrow>
               Inl (OSError (asc ''[Errno 20] Not a directory: '' @ py_repr filepath))
           | Directory es \<Rightarrow>
               if filename = [46] \<or> filename = [46, 46] \<or> (filename, Subdir) \<in> set es
               then Inl (OSError (asc ''[Errno 21] Is a directory: '' @ py_repr filepath))
               else Inr (fs(directory := Directory (write_entry filename data es))))"

section \<open>The fetcher\<close>

text \<open>
  \<open>requests.get\<close> is a parameter, \<open>get\<close>: what the network answers for a URL at the
  time of the call, a response or an exception. \<open>raise_for_status\<close> raises for the
  status codes from 400 to 599.
\<close>

definition raise_for_status :: "response \<Rightarrow> exn + unit" where
  "raise_for_status response =
     (if 400 \<le> status_code response \<and> status_code response < 500
      then Inl (HTTPError (str_nat (status_code response) @ asc '' Client Error: '' @ reason response
                             @ asc '' for url: '' @ url response)
                          (status_code response) (reason response))
      else if 500 \<le> status_code response \<and> status_code response < 600
      then Inl (HTTPError (str_nat (status_code response) @ asc '' Server Error: '' @ reason response
                             @ asc '' for url: '' @ url response)
                          (status_code response) (reason response))
      else Inr ())"

definition cross :: pystr where
  "cross = [10007]"

definition warning_sign :: pystr where
  "warning_sign = [9888]"

definition check_mark :: pystr where
  "check_mark = [10003]"

text \<open>
  The end of the \<open>try\<close> body, from the derivation of the file name on: the file system
  after it, and the result or the exception raised.
\<close>

definition save_image ::
  "(pystr \<Rightarrow> int) \<Rightarrow> pystr \<Rightarrow> pystr \<Rightarrow> response \<Rightarrow> bytes \<Rightarrow> filesystem \<Rightarrow>
   filesystem \<times> (exn + (bool \<times> pystr))" where
  "save_image hash url_str directory response content_bytes fs =
     (let content_type = header_content_type response
      in case get_filename_from_url hash url_str content_type of
           Inl e \<Rightarrow> (fs, Inl e)
         | Inr filename \<Rightarrow>
             let filepath = path_join directory filename
             in case write_file directory filename content_bytes fs of
                  Inl e \<Rightarrow> (fs, Inl e)
                | Inr fs' \<Rightarrow>
                    (case true_div_pow2 (int (length content_bytes)) 10 of
                       Inl e \<Rightarrow> (fs', Inl e)
                     | Inr file_size \<Rightarrow>
                         (fs', Inr (True, check_mark @ asc '' Successfully fetched: '' @ filename
                                      @ asc '' ('' @ format_1f file_size @ asc '' KB)'' @ [10]
                                      @ check_mark @ asc '' Image saved to '' @ filepath))))"

text \<open>The body of the \<open>try\<close> statement.\<close>

definition download_body ::
  "(bytes \<Rightarrow> 'd) \<Rightarrow> (pystr \<Rightarrow> int) \<Rightarrow> (pystr \<Rightarrow> exn + response) \<Rightarrow>
   pystr \<Rightarrow> pystr \<Rightarrow> bool \<Rightarrow> filesystem \<Rightarrow> filesystem \<times> (exn + (bool \<times> pystr))" where
  "download_body sha256 hash get url_str directory check_duplicates fs =
     (case makedirs directory fs of
        Inl e \<Rightarrow> (fs, Inl e)
      | Inr fs1 \<Rightarrow>
          (case get url_str of
             Inl e \<Rightarrow> (fs1, Inl e)
           | Inr response \<Rightarrow>
               (case raise_for_status response of
                  Inl e \<Rightarrow> (fs1, Inl e)
                | Inr _ \<Rightarrow>
                    (case validate_image_headers response of
                       Inl e \<Rightarrow> (fs1, Inl e)
                     | Inr (is_valid, validation_msg) \<Rightarrow>
                         if \<not> is_valid
                         then (fs1, Inr (False, cross @ asc '' Validation failed: '' @ validation_msg))
                         else
                           (case content response of
                              Inl e \<Rightarrow> (fs1, Inl e)
                            | Inr content_bytes \<Rightarrow>
                                if check_duplicates
                                then
                                  (case is_duplicate sha256 content_bytes directory fs1 of
                                     Inl e \<Rightarrow> (fs1, Inl e)
                                   | Inr (is_dup, dup_filename) \<Rightarrow>
                                       if is_dup
                                       then (fs1, Inr (False, warning_sign @ asc '' Image already exists as: ''
                                               @ (case dup_filename of None \<Rightarrow> asc ''None'' | Some name \<Rightarrow> name)
                                               @ asc '' (duplicate skipped)''))
                                       else save_image hash url_str directory response content_bytes fs1)
                                else save_image hash url_str directory response content_bytes fs1)))))"

text \<open>
  The \<open>except\<close> clauses, in the order of the source: the first clause whose class the
  exception is an instance of handles it, and an exception that none handles goes on
  to the caller.
\<close>

definition isinstance_Timeout :: "exn \<Rightarrow> bool" where
  "isinstance_Timeout e = (case e of Timeout _ \<Rightarrow> True | ConnectTimeout _ \<Rightarrow> True | _ \<Rightarrow> False)"

definition isinstance_HTTPError :: "exn \<Rightarrow> bool" where
  "isinstance_HTTPError e = (case e of HTTPError _ _ _ \<Rightarrow> True | _ \<Rightarrow> False)"

definition isinstance_ConnectionError :: "exn \<Rightarrow> bool" where
  "isinstance_ConnectionError e =
     (case e of ConnectionError _ \<Rightarrow> True | ConnectTimeout _ \<Rightarrow> True | _ \<Rightarrow> False)"

definition isinstance_RequestException :: "exn \<Rightarrow> bool" where
  "isinstance_RequestException e =
     (case e of Timeout _ \<Rightarrow> True | ConnectTimeout _ \<Rightarrow> True | HTTPError _ _ _ \<Rightarrow> True
      | ConnectionError _ \<Rightarrow> True | RequestException _ \<Rightarrow> True | _ \<Rightarrow> False)"

definition isinstance_IOError :: "exn \<Rightarrow> bool" where
  "isinstance_IOError e = (case e of OSError _ \<Rightarrow> True | _ \<Rightarrow> isinstance_RequestException e)"

definition isinstance_Exception :: "exn \<Rightarrow> bool" where
  "isinstance_Exception e = True"

definition exn_str :: "exn \<Rightarrow> pystr" where
  "exn_str e =
     (case e of
        Timeout s \<Rightarrow> s | ConnectTimeout s \<Rightarrow> s | HTTPError s _ _ \<Rightarrow> s
      | ConnectionError s \<Rightarrow> s | RequestException s \<Rightarrow> s | OSError s \<Rightarrow> s
      | ValueError s \<Rightarrow> s | OverflowError s \<Rightarrow> s | OtherException s \<Rightarrow> s)"

definition handle_exception :: "exn \<Rightarrow> exn + (bool \<times> pystr)" where
  "handle_exception e =
     (if isinstance_Timeout e
      then Inr (False, cross @ asc '' Connection timeout: Server took too long to respond'')
      else if isinstance_HTTPError e
      then Inr (False, cross @ asc '' HTTP error: ''
                  @ (case e of HTTPError _ code rsn \<Rightarrow> str_nat code @ asc '' - '' @ rsn | _ \<Rightarrow> []))
      else if isinstance_ConnectionError e
      then Inr (False, cross @ asc '' Connection error: Could not reach the server'')
      else if isinstance_RequestException e
      then Inr (False, cross @ asc '' Request error: '' @ exn_str e)
      else if isinstance_IOError e
      then Inr (False, cross @ asc '' File error: Could not save image - '' @ exn_str e)
      else if isinstance_Exception e
      then Inr (False, cross @ asc '' Unexpected error: '' @ exn_str e)
      else Inl e)"

definition download_image ::
  "(bytes \<Rightarrow> 'd) \<Rightarrow> (pystr \<Rightarrow> int) \<Rightarrow> (pystr \<Rightarrow> exn + response) \<Rightarrow>
   pystr \<Rightarrow> pystr \<Rightarrow> bool \<Rightarrow> filesystem \<Rightarrow> filesystem \<times> (exn + (bool \<times> pystr))" where
  "download_image sha256 hash get url_str directory check_duplicates fs =
     (case download_body sha256 hash get url_str directory check_duplicates fs of
        (fs', Inr result) \<Rightarrow> (fs', Inr result)
      | (fs', Inl e) \<Rightarrow> (fs', handle_exception e))"

section \<open>The driver\<close>

text \<open>
  The loop of \<open>main\<close> over the URLs entered, without its printing: \<open>net i\<close> is the
  network at the \<open>i\<close>-th URL (counted from 1, as \<open>enumerate\<close> does), every download
  goes to \<open>Fetched_Images\<close> with duplicate checking, and the three counters are kept in
  a record. An exception of \<open>download_image\<close> would end the loop.
\<close>

record tally =
  success_count :: nat
  skip_count :: nat
  fail_count :: nat

definition count_outcome :: "bool \<times> pystr \<Rightarrow> tally \<Rightarrow> tally" where
  "count_outcome outcome t =
     (case outcome of (success, message) \<Rightarrow>
        if success then t\<lparr>success_count := success_count t + 1\<rparr>
        else if contains (asc ''duplicate'') (lower message) then t\<lparr>skip_count := skip_count t + 1\<rparr>
        else t\<lparr>fail_count := fail_count t + 1\<rparr>)"

fun main_loop ::
  "(bytes \<Rightarrow> 'd) \<Rightarrow> (pystr \<Rightarrow> int) \<Rightarrow> (nat \<Rightarrow> pystr \<Rightarrow> exn + response) \<Rightarrow>
   nat \<Rightarrow> pystr list \<Rightarrow> filesystem \<Rightarrow> tally \<Rightarrow> exn + (filesystem \<times> tally)" where
  "main_loop sha256 hash net i [] fs t = Inr (fs, t)"
| "main_loop sha256 hash net i (u # urls) fs t =
     (case download_image sha256 hash (net i) u (asc ''Fetched_Images'') True fs of
        (fs', Inl e) \<Rightarrow> Inl e
      | (fs', Inr outcome) \<Rightarrow> main_loop sha256 hash net (Suc i) urls fs' (count_outcome outcome t))"

section \<open>Notions of the specification\<close>

text \<open>
  The regular files of a directory with their bytes, in the order of the listing; a
  path that is no directory has none.
\<close>

definition regular_files :: "filesystem \<Rightarrow> pystr \<Rightarrow> (pystr \<times> bytes) list" where
  "regular_files fs directory =
     (case fs directory of
        Directory es \<Rightarrow>
          concat (map (\<lambda>(name, nd). case nd of File data \<Rightarrow> [(name, data)] | Subdir \<Rightarrow> []) es)
      | _ \<Rightarrow> [])"

section \<open>Properties of the header validator\<close>

subsection \<open>Rounding to 53 bits keeps the comparison with 50 MB\<close>







subsection \<open>The three ways through the validator\<close>

lemma validate_reject_type:
  assumes "\<not> prefix (asc ''image/'') (lower (case header_content_type r of None \<Rightarrow> [] | Some v \<Rightarrow> v))"
  shows "validate_image_headers r =
     Inr (False, asc ''Content-Type '' @ [39]
            @ lower (case header_content_type r of None \<Rightarrow> [] | Some v \<Rightarrow> v) @ [39]
            @ asc '' is not an image'')"
  using assms by (simp add: validate_image_headers_def Let_def)

lemma validate_no_length:
  assumes "prefix (asc ''image/'') (lower (case header_content_type r of None \<Rightarrow> [] | Some v \<Rightarrow> v))"
    and "header_content_length r = None \<or> header_content_length r = Some []"
  shows "validate_image_headers r = Inr (True, asc ''Valid image headers'')"
  using assms by (auto simp add: validate_image_headers_def Let_def)


lemmas eval_validate =
  validate_image_headers_def lower_def lower_cp_def asc_def py_int_def strip_def is_space_def
  is_digit_def digits_value_def true_div_pow2_def round53_def bit_length.simps float_gt_def
  format_1f_def str_nat.simps Let_def max_str_digits_def py_repr_def repr_cp_def hex_digit_def




text \<open>
  C3 fails on the code: for the content type \<open>image/png\<close> and the content length
  \<open>abc\<close> the validator returns no decision, it raises the \<open>ValueError\<close> of \<open>int\<close>.
\<close>

theorem validate_image_headers_malformed_length_raises:
  "validate_image_headers
     \<lparr>url = asc ''http://x/a.png'', status_code = 200, reason = asc ''OK'',
      header_content_type = Some (asc ''image/png''), header_content_length = Some (asc ''abc''),
      content = Inr [137, 80, 78, 71]\<rparr> =
     Inl (ValueError (asc ''invalid literal for int() with base 10: '' @ [39] @ asc ''abc'' @ [39]))"
  by (simp add: eval_validate)

text \<open>
  C10. Without a content length, or with an empty one, the validator makes no size
  check: its decision is the test of the content type alone, for every body.
\<close>

theorem validate_image_headers_without_length:
  "header_content_length r = None \<or> header_content_length r = Some [] \<Longrightarrow>
   validate_image_headers r =
     (if prefix (asc ''image/'') (lower (case header_content_type r of None \<Rightarrow> [] | Some v \<Rightarrow> v))
      then Inr (True, asc ''Valid image headers'')
      else Inr (False, asc ''Content-Type '' @ [39]
             @ lower (case header_content_type r of None \<Rightarrow> [] | Some v \<Rightarrow> v) @ [39]
             @ asc '' is not an image''))"
  by (simp add: validate_reject_type validate_no_length)

text \<open>The theorem at a response with an empty content length and a body of 60 bytes.\<close>

theorem validate_image_headers_without_length_witness:
  "validate_image_headers
     \<lparr>url = asc ''http://x/a.png'', status_code = 200, reason = asc ''OK'',
      header_content_type = Some (asc ''image/gif''), header_content_length = Some [],
      content = Inr (replicate 60 7)\<rparr> =
     Inr (True, asc ''Valid image headers'')"
  using validate_image_headers_without_length
    [of "\<lparr>url = asc ''http://x/a.png'', status_code = 200, reason = asc ''OK'',
          header_content_type = Some (asc ''image/gif''), header_content_length = Some [],
          content = Inr (replicate 60 7)\<rparr>"]
  by (simp add: lower_def lower_cp_def asc_def)

section \<open>Properties of the filename resolver\<close>


lemmas eval_url =
  urlparse_path_def basename_def splitparams_def uses_params_def ascii_alpha_def scheme_char_def
  is_digit_def lower_def lower_cp_def asc_def Let_def



section \<open>Properties of the duplicate detector\<close>

lemma feed_read_blocks:
  "0 < n \<Longrightarrow> foldl (\<lambda>fed byte_block. fed @ byte_block) acc (read_blocks n bs) = acc @ bs"
proof (induction n bs arbitrary: acc rule: read_blocks.induct)
  case (1 n bs)
  show ?case
  proof (cases "bs = []")
    case True
    then show ?thesis by (simp add: read_blocks.simps)
  next
    case False
    with "1.prems" have "foldl (\<lambda>fed byte_block. fed @ byte_block) (acc @ take n bs) (read_blocks n (drop n bs))
        = (acc @ take n bs) @ drop n bs"
      by (intro "1.IH") simp_all
    then show ?thesis using False "1.prems" by (subst read_blocks.simps) simp
  qed
qed

lemma get_file_hash_whole: "get_file_hash sha256 file_bytes = sha256 file_bytes"
  by (simp add: get_file_hash_def feed_read_blocks)

lemma scan_directory_find:
  "scan_directory sha256 h es =
     (case find (\<lambda>(name, data). sha256 data = h)
             (concat (map (\<lambda>(name, nd). case nd of File data \<Rightarrow> [(name, data)] | Subdir \<Rightarrow> []) es)) of
        None \<Rightarrow> (False, None)
      | Some (name, data) \<Rightarrow> (True, Some name))"
  by (induction sha256 h es rule: scan_directory.induct) (simp_all add: get_file_hash_whole)

text \<open>
  C5. For a target that is a directory or absent, the detector returns the name of the
  first regular file of the listing whose digest equals the digest of the candidate, and
  no match when there is none; it returns a match if and only if some regular file of
  the directory has that digest. The detector returns no file system: it only reads.
\<close>

theorem is_duplicate_first_match:
  assumes "fs directory \<noteq> NotADirectory"
  shows "is_duplicate sha256 content_bytes directory fs =
           Inr (case find (\<lambda>(name, data). sha256 data = sha256 content_bytes) (regular_files fs directory) of
                  None \<Rightarrow> (False, None)
                | Some (name, data) \<Rightarrow> (True, Some name)) \<and>
         ((\<exists>name. is_duplicate sha256 content_bytes directory fs = Inr (True, Some name)) \<longleftrightarrow>
          (\<exists>(name, data) \<in> set (regular_files fs directory). sha256 data = sha256 content_bytes)) \<and>
         ((is_duplicate sha256 content_bytes directory fs = Inr (False, None)) \<longleftrightarrow>
          \<not> (\<exists>(name, data) \<in> set (regular_files fs directory). sha256 data = sha256 content_bytes))"
proof -
  let ?P = "\<lambda>(name, data). sha256 data = sha256 content_bytes"
  have eq: "is_duplicate sha256 content_bytes directory fs =
           Inr (case find ?P (regular_files fs directory) of
                  None \<Rightarrow> (False, None)
                | Some (name, data) \<Rightarrow> (True, Some name))"
    using assms
    by (cases "fs directory") (simp_all add: is_duplicate_def regular_files_def scan_directory_find)
  show ?thesis
  proof (cases "find ?P (regular_files fs directory)")
    case None
    then have "\<not> (\<exists>x \<in> set (regular_files fs directory). ?P x)"
      by (auto simp add: find_None_iff)
    with None eq show ?thesis by auto
  next
    case (Some x)
    then have "x \<in> set (regular_files fs directory)" and "?P x"
      by (metis find_Some_iff nth_mem)+
    then have "\<exists>x \<in> set (regular_files fs directory). ?P x" by blast
    with Some eq show ?thesis by (cases x) simp
  qed
qed

text \<open>
  The theorem at a directory with a subdirectory and three files, two of them with the
  bytes of the candidate, the bytes themselves taken for their digest: the first of
  the two is returned.
\<close>

theorem is_duplicate_first_match_witness:
  "is_duplicate (\<lambda>b. b) [2]  (asc ''Fetched_Images'')
     ((\<lambda>p. Missing)(asc ''Fetched_Images'' := Directory
        [(asc ''s'', Subdir), (asc ''a.png'', File [1]), (asc ''b.png'', File [2]), (asc ''c.png'', File [2])])) =
   Inr (True, Some (asc ''b.png''))"
  using is_duplicate_first_match
    [of "(\<lambda>p. Missing)(asc ''Fetched_Images'' := Directory
        [(asc ''s'', Subdir), (asc ''a.png'', File [1]), (asc ''b.png'', File [2]), (asc ''c.png'', File [2])])"
        "asc ''Fetched_Images''" "\<lambda>b. b" "[2]"]
  by (simp add: regular_files_def)

section \<open>Properties of the fetcher\<close>

subsection \<open>The steps of a download\<close>


lemma makedirs_InrD:
  assumes "makedirs directory fs = Inr fs1"
  shows "fs directory \<noteq> NotADirectory"
    and "fs1 = (if fs directory = Missing then fs(directory := Directory []) else fs)"
    and "fs1 directory = Directory (case fs directory of Directory es \<Rightarrow> es | _ \<Rightarrow> [])"
  using assms by (cases "fs directory"; simp add: makedirs_def; fastforce)+

lemma makedirs_regular_files:
  "makedirs directory fs = Inr fs1 \<Longrightarrow> regular_files fs1 directory = regular_files fs directory"
  by (cases "fs directory") (auto simp add: makedirs_def regular_files_def)

lemma handle_exception_fails: "\<exists>msg. handle_exception e = Inr (False, msg) \<and> msg \<noteq> []"
  by (cases e)
     (simp_all add: handle_exception_def isinstance_Timeout_def isinstance_HTTPError_def
        isinstance_ConnectionError_def isinstance_RequestException_def isinstance_IOError_def
        isinstance_Exception_def cross_def)

lemma save_image_cases:
  "save_image hash u directory r c fs =
     (case get_filename_from_url hash u (header_content_type r) of
        Inl e \<Rightarrow> (fs, Inl e)
      | Inr filename \<Rightarrow>
          (case write_file directory filename c fs of
             Inl e \<Rightarrow> (fs, Inl e)
           | Inr fs' \<Rightarrow>
               (case true_div_pow2 (int (length c)) 10 of
                  Inl e \<Rightarrow> (fs', Inl e)
                | Inr file_size \<Rightarrow>
                    (fs', Inr (True, check_mark @ asc '' Successfully fetched: '' @ filename
                                 @ asc '' ('' @ format_1f file_size @ asc '' KB)'' @ [10]
                                 @ check_mark @ asc '' Image saved to '' @ path_join directory filename)))))"
  by (simp add: save_image_def Let_def split: sum.splits)

lemma write_file_InrD:
  assumes "write_file directory filename c fs = Inr fs'"
  obtains es where "fs directory = Directory es"
    and "fs' = fs(directory := Directory (write_entry filename c es))"
    and "(filename, Subdir) \<notin> set es"
  using assms
  by (cases "fs directory") (auto simp add: write_file_def Let_def split: if_splits)

text \<open>Everything before the duplicate check, for a response that passes it.\<close>

lemma download_body_valid:
  assumes "makedirs directory fs = Inr fs1" and "get u = Inr r" and "raise_for_status r = Inr ()"
    and "validate_image_headers r = Inr (True, vm)" and "content r = Inr c"
  shows "download_body sha256 hash get u directory check_duplicates fs =
     (if check_duplicates
      then (case is_duplicate sha256 c directory fs1 of
              Inl e \<Rightarrow> (fs1, Inl e)
            | Inr (is_dup, dup_filename) \<Rightarrow>
                if is_dup
                then (fs1, Inr (False, warning_sign @ asc '' Image already exists as: ''
                        @ (case dup_filename of None \<Rightarrow> asc ''None'' | Some name \<Rightarrow> name)
                        @ asc '' (duplicate skipped)''))
                else save_image hash u directory r c fs1)
      else save_image hash u directory r c fs1)"
  using assms by (simp add: download_body_def)


text \<open>What a successful body has done.\<close>

lemma download_body_successD:
  assumes "download_body sha256 hash get u directory check_duplicates fs = (fs', Inr (True, m))"
  obtains fs1 r vm c filename es where
    "makedirs directory fs = Inr fs1" "get u = Inr r" "raise_for_status r = Inr ()"
    "validate_image_headers r = Inr (True, vm)" "content r = Inr c"
    "check_duplicates \<longrightarrow> is_duplicate sha256 c directory fs1 = Inr (False, None)"
    "get_filename_from_url hash u (header_content_type r) = Inr filename"
    "fs1 directory = Directory es" "(filename, Subdir) \<notin> set es"
    "fs' = fs1(directory := Directory (write_entry filename c es))"
proof -
  from assms obtain fs1 where 1: "makedirs directory fs = Inr fs1"
    by (auto simp add: download_body_def split: sum.splits)
  from assms 1 obtain r where 2: "get u = Inr r"
    by (auto simp add: download_body_def split: sum.splits)
  from assms 1 2 have 3: "raise_for_status r = Inr ()"
    by (auto simp add: download_body_def split: sum.splits)
  from assms 1 2 3 obtain vm where 4: "validate_image_headers r = Inr (True, vm)"
    by (auto simp add: download_body_def split: sum.splits if_splits)
  from assms 1 2 3 4 obtain c where 5: "content r = Inr c"
    by (auto simp add: download_body_def split: sum.splits)
  note body = download_body_valid
    [where get = get and u = u and ?sha256.0 = sha256 and hash = hash
       and check_duplicates = check_duplicates, OF 1 2 3 4 5]
  have dup: "check_duplicates \<longrightarrow> is_duplicate sha256 c directory fs1 = Inr (False, None)"
  proof
    assume cd: check_duplicates
    from makedirs_InrD(1) [OF 1] makedirs_InrD(3) [OF 1]
    have "fs1 directory \<noteq> NotADirectory" by simp
    then obtain res where res: "is_duplicate sha256 c directory fs1 = Inr res"
      by (cases "fs1 directory") (simp_all add: is_duplicate_def)
    with assms body cd have "\<not> fst res" by (cases res) (auto split: if_splits)
    with res show "is_duplicate sha256 c directory fs1 = Inr (False, None)"
      by (cases "fs1 directory"; cases res)
         (auto simp add: is_duplicate_def scan_directory_find split: option.splits)
  qed
  from assms body dup have save: "save_image hash u directory r c fs1 = (fs', Inr (True, m))"
    by (auto split: if_splits)
  then obtain filename where 6: "get_filename_from_url hash u (header_content_type r) = Inr filename"
    by (auto simp add: save_image_cases split: sum.splits)
  from save 6 have 7: "write_file directory filename c fs1 = Inr fs'"
    by (auto simp add: save_image_cases split: sum.splits)
  from 7 obtain es where 8: "fs1 directory = Directory es"
    "fs' = fs1(directory := Directory (write_entry filename c es))" "(filename, Subdir) \<notin> set es"
    by (rule write_file_InrD)
  from 1 2 3 4 5 dup 6 8(1) 8(3) 8(2) show ?thesis by (rule that)
qed

lemma download_image_successD:
  assumes "download_image sha256 hash get u directory check_duplicates fs = (fs', Inr (True, m))"
  shows "download_body sha256 hash get u directory check_duplicates fs = (fs', Inr (True, m))"
proof (cases "download_body sha256 hash get u directory check_duplicates fs")
  case (Pair a b)
  show ?thesis
  proof (cases b)
    case (Inl e)
    with Pair assms handle_exception_fails [of e] show ?thesis
      by (auto simp add: download_image_def)
  next
    case (Inr res)
    with Pair assms show ?thesis by (simp add: download_image_def)
  qed
qed

lemma download_image_of_body:
  "download_body sha256 hash get u directory check_duplicates fs = (fs', Inr res) \<Longrightarrow>
   download_image sha256 hash get u directory check_duplicates fs = (fs', Inr res)"
  by (simp add: download_image_def)

lemma contains_prefix: "prefix needle hay \<Longrightarrow> contains needle hay"
  by (cases hay) simp_all

lemma contains_append_right: "contains needle ys \<Longrightarrow> contains needle (xs @ ys)"
  by (induction xs) simp_all

lemma lower_append: "lower (xs @ ys) = lower xs @ lower ys"
  by (simp add: lower_def)

lemma duplicate_message_contains:
  "contains (asc ''duplicate'')
     (lower (warning_sign @ asc '' Image already exists as: '' @ name @ asc '' (duplicate skipped)''))"
proof -
  have tail: "lower (asc '' (duplicate skipped)'') = asc '' ('' @ asc ''duplicate'' @ asc '' skipped)''"
    by (simp add: lower_def lower_cp_def asc_def)
  have "contains (asc ''duplicate'') (asc ''duplicate'' @ asc '' skipped)'')"
    by (rule contains_prefix) simp
  then have "contains (asc ''duplicate'') (asc '' ('' @ asc ''duplicate'' @ asc '' skipped)'')"
    by (rule contains_append_right)
  then have "contains (asc ''duplicate'') (lower (asc '' (duplicate skipped)''))"
    by (simp only: tail)
  then have "contains (asc ''duplicate'') (lower name @ lower (asc '' (duplicate skipped)''))"
    by (rule contains_append_right)
  then have "contains (asc ''duplicate'')
      (lower (asc '' Image already exists as: '') @ lower name @ lower (asc '' (duplicate skipped)''))"
    by (rule contains_append_right)
  then have "contains (asc ''duplicate'')
      (lower warning_sign @ lower (asc '' Image already exists as: '') @ lower name
         @ lower (asc '' (duplicate skipped)''))"
    by (rule contains_append_right)
  then show ?thesis by (simp only: lower_append)
qed

lemma count_outcome_skip:
  "count_outcome (False, warning_sign @ asc '' Image already exists as: '' @ name
       @ asc '' (duplicate skipped)'') t = t\<lparr>skip_count := skip_count t + 1\<rparr>"
  using duplicate_message_contains [of name] by (simp add: count_outcome_def)

lemma written_file_listed:
  assumes "(filename, Subdir) \<notin> set es"
  shows "(filename, c) \<in> set (regular_files (fs(directory := Directory (write_entry filename c es))) directory)"
proof -
  have "(filename, File c) \<in> set (write_entry filename c es)"
    by (force simp add: write_entry_def)
  then show ?thesis by (force simp add: regular_files_def)
qed

lemma is_duplicate_found:
  assumes "fs directory \<noteq> NotADirectory"
    and "(name, data) \<in> set (regular_files fs directory)" and "sha256 data = sha256 c"
  shows "\<exists>found. is_duplicate sha256 c directory fs = Inr (True, Some found)"
proof -
  let ?P = "\<lambda>(name, data). sha256 data = sha256 c"
  from assms(2,3) have "\<exists>x \<in> set (regular_files fs directory). ?P x" by blast
  then obtain x where "find ?P (regular_files fs directory) = Some x"
    by (cases "find ?P (regular_files fs directory)") (auto simp add: find_None_iff)
  moreover have "is_duplicate sha256 c directory fs =
      Inr (case find ?P (regular_files fs directory) of
                  None \<Rightarrow> (False, None)
                | Some (name, data) \<Rightarrow> (True, Some name))"
    using assms(1)
    by (cases "fs directory") (simp_all add: is_duplicate_def regular_files_def scan_directory_find)
  ultimately show ?thesis by (cases x) simp
qed

lemma is_duplicate_none:
  assumes "is_duplicate sha256 c directory fs = Inr (False, None)"
    and "(name, data) \<in> set (regular_files fs directory)"
  shows "sha256 data \<noteq> sha256 c"
proof
  assume eq: "sha256 data = sha256 c"
  from assms(2) have "fs directory \<noteq> NotADirectory" by (auto simp add: regular_files_def)
  from is_duplicate_found [OF this assms(2) eq] assms(1) show False by simp
qed

text \<open>A download after a successful one, with the same bytes, that passes the validation.\<close>

lemma second_download_skipped:
  assumes first: "download_image sha256 hash get1 u1 directory cd1 fs = (fs1, Inr (True, m1))"
    and r1: "get1 u1 = Inr r1" "content r1 = Inr c"
    and second: "get2 u2 = Inr r2" "raise_for_status r2 = Inr ()"
      "validate_image_headers r2 = Inr (True, vm)" "content r2 = Inr c"
  shows "\<exists>name. download_image sha256 hash get2 u2 directory True fs1 =
           (fs1, Inr (False, warning_sign @ asc '' Image already exists as: '' @ name
                        @ asc '' (duplicate skipped)''))"
proof -
  from download_image_successD [OF first]
  obtain fs0 r vm' c' filename es where
    mk: "makedirs directory fs = Inr fs0" and g: "get1 u1 = Inr r" and cr: "content r = Inr c'"
    and dir: "fs0 directory = Directory es" and nosub: "(filename, Subdir) \<notin> set es"
    and fs1: "fs1 = fs0(directory := Directory (write_entry filename c' es))"
    by (rule download_body_successD)
  from g r1 cr have c: "c' = c" by simp
  have d1: "fs1 directory = Directory (write_entry filename c es)" by (simp add: fs1 c)
  then have mk1: "makedirs directory fs1 = Inr fs1" by (simp add: makedirs_def)
  have listed: "(filename, c) \<in> set (regular_files fs1 directory)"
    unfolding fs1 c using nosub by (rule written_file_listed)
  from d1 have "fs1 directory \<noteq> NotADirectory" by simp
  from is_duplicate_found [where ?sha256.0 = sha256 and c = c, OF this listed refl]
  obtain found where dup: "is_duplicate sha256 c directory fs1 = Inr (True, Some found)" by blast
  have "download_body sha256 hash get2 u2 directory True fs1 =
           (fs1, Inr (False, warning_sign @ asc '' Image already exists as: '' @ found
                        @ asc '' (duplicate skipped)''))"
    using download_body_valid [where get = get2 and u = u2 and ?sha256.0 = sha256 and hash = hash
       and check_duplicates = True, OF mk1 second] dup
    by simp
  then show ?thesis by (auto dest: download_image_of_body)
qed





lemmas eval_download =
  download_image_def download_body_def save_image_def makedirs_def raise_for_status_def
  is_duplicate_def write_file_def write_entry_def path_join_def get_filename_from_url_def
  get_file_hash_def handle_exception_def isinstance_Timeout_def isinstance_HTTPError_def
  isinstance_ConnectionError_def isinstance_RequestException_def isinstance_IOError_def
  isinstance_Exception_def exn_str_def cross_def warning_sign_def check_mark_def
  mime_to_ext_def read_blocks.simps

subsection \<open>Oversized responses\<close>





subsection \<open>Identical content\<close>

lemma not_success_again:
  assumes first: "download_image sha256 hash get1 u1 directory cd1 fs = (fs1, Inr (True, m1))"
    and r1: "get1 u1 = Inr r1" "content r1 = Inr c"
    and r2: "get2 u2 = Inr r2" "content r2 = Inr c"
  shows "download_image sha256 hash get2 u2 directory True fs1 \<noteq> (fs2, Inr (True, m2))"
proof
  assume again: "download_image sha256 hash get2 u2 directory True fs1 = (fs2, Inr (True, m2))"
  from download_image_successD [OF first]
  obtain fs0 r vm' c' filename es where
    g: "get1 u1 = Inr r" and cr: "content r = Inr c'"
    and nosub: "(filename, Subdir) \<notin> set es"
    and fs1: "fs1 = fs0(directory := Directory (write_entry filename c' es))"
    by (rule download_body_successD)
  from g r1 cr have c: "c' = c" by simp
  have d1: "fs1 directory = Directory (write_entry filename c es)" by (simp add: fs1 c)
  have listed: "(filename, c) \<in> set (regular_files fs1 directory)"
    unfolding fs1 c using nosub by (rule written_file_listed)
  from download_image_successD [OF again]
  obtain fs1' r' vm2 c2 where
    mk: "makedirs directory fs1 = Inr fs1'" and g2: "get2 u2 = Inr r'" and cr2: "content r' = Inr c2"
    and nodup: "True \<longrightarrow> is_duplicate sha256 c2 directory fs1' = Inr (False, None)"
    by (rule download_body_successD)
  from g2 r2 cr2 have c2: "c2 = c" by simp
  from mk d1 have "fs1' = fs1" by (simp add: makedirs_def)
  with nodup c2 have "is_duplicate sha256 c directory fs1 = Inr (False, None)" by simp
  from is_duplicate_none [OF this listed] show False by simp
qed

text \<open>
  C6, as the code has it. After a download that succeeded with the bytes \<open>c\<close>, a download
  into the same directory with duplicate checking whose response has a status that is
  no error, passes the header validation and carries the same bytes is a duplicate
  skip: it returns \<open>False\<close> and the message of the duplicate, leaves the file system as
  it is, and the driver counts it as skipped. Whatever its headers are, a second
  download with the same bytes is no success. When the network answers a URL the same
  way twice and the first download of it succeeds, the driver's tally for the two is
  1 success, 1 skip and 0 failures.
\<close>

theorem identical_content_skipped:
  "(download_image sha256 hash get1 u1 directory cd1 fs = (fs1, Inr (True, m1)) \<and>
    get1 u1 = Inr r1 \<and> content r1 = Inr c \<and>
    get2 u2 = Inr r2 \<and> raise_for_status r2 = Inr () \<and>
    validate_image_headers r2 = Inr (True, vm) \<and> content r2 = Inr c \<longrightarrow>
      (\<exists>name. download_image sha256 hash get2 u2 directory True fs1 =
                 (fs1, Inr (False, warning_sign @ asc '' Image already exists as: '' @ name
                              @ asc '' (duplicate skipped)'')) \<and>
               count_outcome (False, warning_sign @ asc '' Image already exists as: '' @ name
                              @ asc '' (duplicate skipped)'') t = t\<lparr>skip_count := skip_count t + 1\<rparr>)) \<and>
   (download_image sha256 hash get1 u1 directory cd1 fs = (fs1, Inr (True, m1)) \<and>
    get1 u1 = Inr r1 \<and> content r1 = Inr c \<and> get2 u2 = Inr r2 \<and> content r2 = Inr c \<longrightarrow>
      download_image sha256 hash get2 u2 directory True fs1 \<noteq> (fs2, Inr (True, m2))) \<and>
   (download_image sha256 hash (net 1) u (asc ''Fetched_Images'') True fs = (fs1, Inr (True, m)) \<and>
    net 2 u = net 1 u \<longrightarrow>
      main_loop sha256 hash net 1 [u, u] fs \<lparr>success_count = 0, skip_count = 0, fail_count = 0\<rparr> =
        Inr (fs1, \<lparr>success_count = 1, skip_count = 1, fail_count = 0\<rparr>))"
proof (intro conjI impI)
  assume a: "download_image sha256 hash get1 u1 directory cd1 fs = (fs1, Inr (True, m1)) \<and>
    get1 u1 = Inr r1 \<and> content r1 = Inr c \<and>
    get2 u2 = Inr r2 \<and> raise_for_status r2 = Inr () \<and>
    validate_image_headers r2 = Inr (True, vm) \<and> content r2 = Inr c"
  then obtain name where "download_image sha256 hash get2 u2 directory True fs1 =
                 (fs1, Inr (False, warning_sign @ asc '' Image already exists as: '' @ name
                              @ asc '' (duplicate skipped)''))"
    using second_download_skipped [of sha256 hash get1 u1 directory cd1 fs fs1 m1 r1 c get2 u2 r2 vm]
    by blast
  then show "\<exists>name. download_image sha256 hash get2 u2 directory True fs1 =
                 (fs1, Inr (False, warning_sign @ asc '' Image already exists as: '' @ name
                              @ asc '' (duplicate skipped)'')) \<and>
               count_outcome (False, warning_sign @ asc '' Image already exists as: '' @ name
                              @ asc '' (duplicate skipped)'') t = t\<lparr>skip_count := skip_count t + 1\<rparr>"
    using count_outcome_skip [of name t] by blast
next
  assume "download_image sha256 hash get1 u1 directory cd1 fs = (fs1, Inr (True, m1)) \<and>
    get1 u1 = Inr r1 \<and> content r1 = Inr c \<and> get2 u2 = Inr r2 \<and> content r2 = Inr c"
  then show "download_image sha256 hash get2 u2 directory True fs1 \<noteq> (fs2, Inr (True, m2))"
    using not_success_again [of sha256 hash get1 u1 directory cd1 fs fs1 m1 r1 c get2 u2 r2 fs2 m2]
    by blast
next
  let ?d = "asc ''Fetched_Images''"
  let ?t0 = "\<lparr>success_count = 0, skip_count = 0, fail_count = 0\<rparr>"
  assume a: "download_image sha256 hash (net 1) u ?d True fs = (fs1, Inr (True, m)) \<and> net 2 u = net 1 u"
  then have first: "download_image sha256 hash (net 1) u ?d True fs = (fs1, Inr (True, m))"
    and same: "net 2 u = net 1 u" by simp_all
  from download_image_successD [OF first]
  obtain fs0 r vm c where
    g: "net 1 u = Inr r" and st: "raise_for_status r = Inr ()"
    and val: "validate_image_headers r = Inr (True, vm)" and cr: "content r = Inr c"
    by (rule download_body_successD)
  from g same have g2: "net 2 u = Inr r" by simp
  from second_download_skipped [where ?get1.0 = "net 1" and ?u1.0 = u and ?get2.0 = "net 2" and ?u2.0 = u,
      OF first g cr g2 st val cr]
  obtain name where second: "download_image sha256 hash (net 2) u ?d True fs1 =
      (fs1, Inr (False, warning_sign @ asc '' Image already exists as: '' @ name
                              @ asc '' (duplicate skipped)''))"
    by blast
  have c1: "count_outcome (True, m) ?t0 = \<lparr>success_count = 1, skip_count = 0, fail_count = 0\<rparr>"
    by (simp add: count_outcome_def)
  have c2: "count_outcome (False, warning_sign @ asc '' Image already exists as: '' @ name
                              @ asc '' (duplicate skipped)'')
              \<lparr>success_count = 1, skip_count = 0, fail_count = 0\<rparr>
            = \<lparr>success_count = 1, skip_count = 1, fail_count = 0\<rparr>"
    by (simp add: count_outcome_skip)
  have "main_loop sha256 hash net 1 [u, u] fs ?t0 =
          main_loop sha256 hash net (Suc 1) [u] fs1 (count_outcome (True, m) ?t0)"
    by (simp only: main_loop.simps first prod.case sum.case)
  also have "\<dots> = main_loop sha256 hash net 2 [u] fs1 \<lparr>success_count = 1, skip_count = 0, fail_count = 0\<rparr>"
    by (simp only: c1 Suc_1)
  also have "\<dots> = main_loop sha256 hash net (Suc 2) [] fs1
      (count_outcome (False, warning_sign @ asc '' Image already exists as: '' @ name
                              @ asc '' (duplicate skipped)'')
              \<lparr>success_count = 1, skip_count = 0, fail_count = 0\<rparr>)"
    by (simp only: main_loop.simps second prod.case sum.case)
  also have "\<dots> = Inr (fs1, \<lparr>success_count = 1, skip_count = 1, fail_count = 0\<rparr>)"
    by (simp only: c2 main_loop.simps)
  finally show "main_loop sha256 hash net 1 [u, u] fs ?t0 =
        Inr (fs1, \<lparr>success_count = 1, skip_count = 1, fail_count = 0\<rparr>)" .
qed

text \<open>
  The theorem for the same URL twice into a fresh file system, the network answering
  both times with the same image of three bytes: the second download is a duplicate
  skip that names \<open>a.png\<close>, one file is written and the tally is 1, 1, 0.
\<close>

theorem identical_content_skipped_witness:
  "download_image (\<lambda>b. b) (\<lambda>s. 0)
     (\<lambda>u. Inr \<lparr>url = u, status_code = 200, reason = asc ''OK'',
        header_content_type = Some (asc ''image/png''), header_content_length = Some (asc ''3''),
        content = Inr [1, 2, 3]\<rparr>)
     (asc ''http://x/a.png'') (asc ''Fetched_Images'') True
     ((\<lambda>p. Missing)(asc ''Fetched_Images'' := Directory [(asc ''a.png'', File [1, 2, 3])])) =
   ((\<lambda>p. Missing)(asc ''Fetched_Images'' := Directory [(asc ''a.png'', File [1, 2, 3])]),
    Inr (False, warning_sign @ asc '' Image already exists as: a.png (duplicate skipped)'')) \<and>
   main_loop (\<lambda>b. b) (\<lambda>s. 0)
     (\<lambda>i u. Inr \<lparr>url = u, status_code = 200, reason = asc ''OK'',
        header_content_type = Some (asc ''image/png''), header_content_length = Some (asc ''3''),
        content = Inr [1, 2, 3]\<rparr>)
     1 [asc ''http://x/a.png'', asc ''http://x/a.png''] (\<lambda>p. Missing)
     \<lparr>success_count = 0, skip_count = 0, fail_count = 0\<rparr> =
   Inr ((\<lambda>p. Missing)(asc ''Fetched_Images'' := Directory [(asc ''a.png'', File [1, 2, 3])]),
        \<lparr>success_count = 1, skip_count = 1, fail_count = 0\<rparr>)"
proof -
  let ?u = "asc ''http://x/a.png''"
  let ?d = "asc ''Fetched_Images''"
  let ?r = "\<lparr>url = ?u, status_code = 200, reason = asc ''OK'',
        header_content_type = Some (asc ''image/png''), header_content_length = Some (asc ''3''),
        content = Inr [1, 2, 3]\<rparr>"
  let ?get = "\<lambda>u. Inr \<lparr>url = u, status_code = 200, reason = asc ''OK'',
        header_content_type = Some (asc ''image/png''), header_content_length = Some (asc ''3''),
        content = Inr [1, 2, 3]\<rparr>"
  let ?net = "\<lambda>i u. Inr \<lparr>url = u, status_code = 200, reason = asc ''OK'',
        header_content_type = Some (asc ''image/png''), header_content_length = Some (asc ''3''),
        content = Inr [1, 2, 3]\<rparr>"
  let ?fs1 = "(\<lambda>p. Missing)(?d := Directory [(asc ''a.png'', File [1, 2, 3])])"
  let ?m = "check_mark @ asc '' Successfully fetched: a.png (0.0 KB)'' @ [10]
                 @ check_mark @ asc '' Image saved to Fetched_Images/a.png''"
  have first: "download_image (\<lambda>b. b) (\<lambda>s. 0) ?get ?u ?d True (\<lambda>p. Missing) = (?fs1, Inr (True, ?m))"
    by (simp add: eval_download eval_validate eval_url)
  have g: "?get ?u = Inr ?r" by simp
  have c: "content ?r = Inr [1, 2, 3]" by simp
  have st: "raise_for_status ?r = Inr ()" by (simp add: raise_for_status_def)
  have val: "validate_image_headers ?r = Inr (True, asc ''Valid image headers'')"
    by (simp add: eval_validate)
  have hyp1: "download_image (\<lambda>b. b) (\<lambda>s. 0) ?get ?u ?d True (\<lambda>p. Missing) = (?fs1, Inr (True, ?m)) \<and>
    ?get ?u = Inr ?r \<and> content ?r = Inr [1, 2, 3] \<and>
    ?get ?u = Inr ?r \<and> raise_for_status ?r = Inr () \<and>
    validate_image_headers ?r = Inr (True, asc ''Valid image headers'') \<and> content ?r = Inr [1, 2, 3]"
    using first st val by simp
  have hyp2: "download_image (\<lambda>b. b) (\<lambda>s. 0) ?get ?u ?d True (\<lambda>p. Missing) = (?fs1, Inr (True, ?m)) \<and>
    ?get ?u = Inr ?r \<and> content ?r = Inr [1, 2, 3] \<and> ?get ?u = Inr ?r \<and> content ?r = Inr [1, 2, 3]"
    using first by simp
  have hyp3: "download_image (\<lambda>b. b) (\<lambda>s. 0) (?net 1) ?u ?d True (\<lambda>p. Missing) = (?fs1, Inr (True, ?m)) \<and>
    ?net 2 ?u = ?net 1 ?u"
    using first by simp
  note inst = identical_content_skipped
    [where ?sha256.0 = "\<lambda>b. b" and hash = "\<lambda>s. 0" and ?get1.0 = ?get and ?u1.0 = ?u
       and directory = ?d and ?cd1.0 = True and fs = "\<lambda>p. Missing" and ?fs1.0 = ?fs1 and ?m1.0 = ?m
       and ?r1.0 = ?r and c = "[1, 2, 3]" and ?get2.0 = ?get and ?u2.0 = ?u and ?r2.0 = ?r
       and vm = "asc ''Valid image headers''" and net = ?net and u = ?u and m = ?m
       and ?fs2.0 = ?fs1 and ?m2.0 = ?m
       and t = "\<lparr>success_count = 1, skip_count = 0, fail_count = 0\<rparr>"]
  from mp [OF conjunct1 [OF inst] hyp1]
  obtain name where second: "download_image (\<lambda>b. b) (\<lambda>s. 0) ?get ?u ?d True ?fs1 =
      (?fs1, Inr (False, warning_sign @ asc '' Image already exists as: '' @ name @ asc '' (duplicate skipped)''))"
    by (elim exE conjE)
  have concrete: "download_image (\<lambda>b. b) (\<lambda>s. 0) ?get ?u ?d True ?fs1 =
      (?fs1, Inr (False, warning_sign @ asc '' Image already exists as: a.png (duplicate skipped)''))"
    by (simp add: eval_download eval_validate)
  from mp [OF conjunct1 [OF conjunct2 [OF inst]] hyp2]
  have nosuccess: "download_image (\<lambda>b. b) (\<lambda>s. 0) ?get ?u ?d True ?fs1 \<noteq> (?fs1, Inr (True, ?m))" .
  from mp [OF conjunct2 [OF conjunct2 [OF inst]] hyp3]
  have tally: "main_loop (\<lambda>b. b) (\<lambda>s. 0) ?net 1 [?u, ?u] (\<lambda>p. Missing)
       \<lparr>success_count = 0, skip_count = 0, fail_count = 0\<rparr> =
     Inr (?fs1, \<lparr>success_count = 1, skip_count = 1, fail_count = 0\<rparr>)" .
  from concrete tally second nosuccess show ?thesis by (intro conjI)
qed

text \<open>
  C6 as the specification words it fails when the second response carries the same
  bytes under another content type: after the successful download of \<open>a.png\<close>, the
  download of \<open>b.png\<close> with the same bytes and the type \<open>text/html\<close> is a
  validation failure, counted as failed.
\<close>

theorem identical_bytes_other_type_counterexample:
  "download_image (\<lambda>b. b) (\<lambda>s. 0)
     (\<lambda>u. Inr \<lparr>url = u, status_code = 200, reason = asc ''OK'',
        header_content_type = Some (asc ''image/png''), header_content_length = None,
        content = Inr [1, 2, 3]\<rparr>)
     (asc ''http://x/a.png'') (asc ''Fetched_Images'') True (\<lambda>p. Missing) =
   ((\<lambda>p. Missing)(asc ''Fetched_Images'' := Directory [(asc ''a.png'', File [1, 2, 3])]),
    Inr (True, check_mark @ asc '' Successfully fetched: a.png (0.0 KB)'' @ [10]
                 @ check_mark @ asc '' Image saved to Fetched_Images/a.png'')) \<and>
   download_image (\<lambda>b. b) (\<lambda>s. 0)
     (\<lambda>u. Inr \<lparr>url = u, status_code = 200, reason = asc ''OK'',
        header_content_type = Some (asc ''text/html''), header_content_length = None,
        content = Inr [1, 2, 3]\<rparr>)
     (asc ''http://x/b.png'') (asc ''Fetched_Images'') True
     ((\<lambda>p. Missing)(asc ''Fetched_Images'' := Directory [(asc ''a.png'', File [1, 2, 3])])) =
   ((\<lambda>p. Missing)(asc ''Fetched_Images'' := Directory [(asc ''a.png'', File [1, 2, 3])]),
    Inr (False, cross @ asc '' Validation failed: Content-Type '' @ [39] @ asc ''text/html'' @ [39]
                  @ asc '' is not an image'')) \<and>
   count_outcome
     (False, cross @ asc '' Validation failed: Content-Type '' @ [39] @ asc ''text/html'' @ [39]
               @ asc '' is not an image'')
     \<lparr>success_count = 1, skip_count = 0, fail_count = 0\<rparr> =
   \<lparr>success_count = 1, skip_count = 0, fail_count = 1\<rparr>"
  by (simp add: eval_download eval_validate eval_url count_outcome_def)

subsection \<open>The three outcomes\<close>



subsection \<open>Errors\<close>


text \<open>
  The scenario of the specification: the first of two URLs times out, the second is
  fetched all the same, and the tally is 1 success and 1 failure.
\<close>

lemma timeout_does_not_stop_the_loop:
  "main_loop (\<lambda>b. b) (\<lambda>s. 0)
     (\<lambda>i u. if i = 1 then Inl (Timeout (asc ''timed out''))
            else Inr \<lparr>url = u, status_code = 200, reason = asc ''OK'',
                   header_content_type = Some (asc ''image/png''), header_content_length = None,
                   content = Inr [1, 2, 3]\<rparr>)
     1 [asc ''http://x/slow.png'', asc ''http://x/a.png''] (\<lambda>p. Missing)
     \<lparr>success_count = 0, skip_count = 0, fail_count = 0\<rparr> =
   Inr ((\<lambda>p. Missing)(asc ''Fetched_Images'' := Directory [(asc ''a.png'', File [1, 2, 3])]),
        \<lparr>success_count = 1, skip_count = 0, fail_count = 1\<rparr>)"
  by (simp add: eval_download eval_validate eval_url count_outcome_def contains.simps)

subsection \<open>What a successful download writes\<close>

lemma write_entry_others:
  "name \<noteq> filename \<Longrightarrow> (name, nd) \<in> set (write_entry filename c es) \<longleftrightarrow> (name, nd) \<in> set es"
  by (force simp add: write_entry_def split: if_splits)

lemma write_entry_named:
  "(filename, nd) \<in> set (write_entry filename c es) \<Longrightarrow> nd = File c"
  by (force simp add: write_entry_def split: if_splits)

text \<open>
  C9, as the code has it. A download with duplicate checking that succeeds has written
  bytes whose digest differs from the digest of every regular file that was in the
  directory. It has written them under the derived file name: afterwards that name
  names a regular file with exactly the downloaded bytes, replacing whatever regular
  file had the name before, and every entry of another name is as it was.
\<close>

theorem successful_download_writes:
  assumes "download_image sha256 hash get u directory True fs = (fs', Inr (True, m))"
  shows "\<exists>r c filename es.
           get u = Inr r \<and> content r = Inr c \<and>
           get_filename_from_url hash u (header_content_type r) = Inr filename \<and>
           fs directory \<noteq> NotADirectory \<and>
           es = (case fs directory of Directory old \<Rightarrow> old | _ \<Rightarrow> []) \<and>
           fs' = fs(directory := Directory (write_entry filename c es)) \<and>
           (\<forall>(name, data) \<in> set (regular_files fs directory). sha256 data \<noteq> sha256 c) \<and>
           (filename, c) \<in> set (regular_files fs' directory) \<and>
           (\<forall>nd. (filename, nd) \<in> set (write_entry filename c es) \<longrightarrow> nd = File c) \<and>
           (\<forall>name nd. name \<noteq> filename \<longrightarrow>
              ((name, nd) \<in> set (write_entry filename c es) \<longleftrightarrow> (name, nd) \<in> set es))"
proof -
  from download_image_successD [OF assms]
  obtain fs1 r vm c filename es where
    mk: "makedirs directory fs = Inr fs1" and g: "get u = Inr r" and cr: "content r = Inr c"
    and nodup: "True \<longrightarrow> is_duplicate sha256 c directory fs1 = Inr (False, None)"
    and fn: "get_filename_from_url hash u (header_content_type r) = Inr filename"
    and dir: "fs1 directory = Directory es" and nosub: "(filename, Subdir) \<notin> set es"
    and fs': "fs' = fs1(directory := Directory (write_entry filename c es))"
    by (rule download_body_successD)
  from makedirs_InrD [OF mk] dir
  have nd: "fs directory \<noteq> NotADirectory"
    and es: "es = (case fs directory of Directory old \<Rightarrow> old | _ \<Rightarrow> [])"
    and fs1: "fs1 = (if fs directory = Missing then fs(directory := Directory []) else fs)"
    by simp_all
  from fs' fs1 have upd: "fs' = fs(directory := Directory (write_entry filename c es))"
    by (simp split: if_splits)
  have fresh: "\<forall>(name, data) \<in> set (regular_files fs directory). sha256 data \<noteq> sha256 c"
  proof (clarify)
    fix name data
    assume "(name, data) \<in> set (regular_files fs directory)" and eq: "sha256 data = sha256 c"
    then have "(name, data) \<in> set (regular_files fs1 directory)"
      by (simp add: makedirs_regular_files [OF mk])
    from is_duplicate_none [OF _ this, of sha256 c] nodup eq show False by simp
  qed
  have listed: "(filename, c) \<in> set (regular_files fs' directory)"
    unfolding upd using nosub by (rule written_file_listed)
  from g cr fn nd es upd fresh listed show ?thesis
    by (intro exI [of _ r] exI [of _ c] exI [of _ filename] exI [of _ es])
       (simp add: write_entry_others write_entry_named [of filename _ c es] del: split_paired_All)
qed

text \<open>
  The theorem at a directory that holds \<open>b.png\<close>, for the download of \<open>a.png\<close> with
  other bytes: \<open>a.png\<close> is added and \<open>b.png\<close> is kept.
\<close>

theorem successful_download_writes_witness:
  "download_image (\<lambda>b. b) (\<lambda>s. 0)
     (\<lambda>u. Inr \<lparr>url = u, status_code = 200, reason = asc ''OK'',
        header_content_type = Some (asc ''image/png''), header_content_length = None,
        content = Inr [2]\<rparr>)
     (asc ''http://x/a.png'') (asc ''Fetched_Images'') True
     ((\<lambda>p. Missing)(asc ''Fetched_Images'' := Directory [(asc ''b.png'', File [1])])) =
   ((\<lambda>p. Missing)(asc ''Fetched_Images'' := Directory [(asc ''b.png'', File [1]), (asc ''a.png'', File [2])]),
    Inr (True, check_mark @ asc '' Successfully fetched: a.png (0.0 KB)'' @ [10]
                 @ check_mark @ asc '' Image saved to Fetched_Images/a.png'')) \<and>
   regular_files
     ((\<lambda>p. Missing)(asc ''Fetched_Images'' := Directory [(asc ''b.png'', File [1]), (asc ''a.png'', File [2])]))
     (asc ''Fetched_Images'') = [(asc ''b.png'', [1]), (asc ''a.png'', [2])]"
proof -
  let ?get = "\<lambda>u. Inr \<lparr>url = u, status_code = 200, reason = asc ''OK'',
        header_content_type = Some (asc ''image/png''), header_content_length = None,
        content = Inr [2]\<rparr>"
  let ?fs = "(\<lambda>p. Missing)(asc ''Fetched_Images'' := Directory [(asc ''b.png'', File [1])])"
  let ?fs' = "(\<lambda>p. Missing)(asc ''Fetched_Images'' := Directory [(asc ''b.png'', File [1]), (asc ''a.png'', File [2])])"
  let ?m = "check_mark @ asc '' Successfully fetched: a.png (0.0 KB)'' @ [10]
                 @ check_mark @ asc '' Image saved to Fetched_Images/a.png''"
  have d: "download_image (\<lambda>b. b) (\<lambda>s. 0) ?get (asc ''http://x/a.png'') (asc ''Fetched_Images'') True ?fs
             = (?fs', Inr (True, ?m))"
    by (simp add: eval_download eval_validate eval_url)
  have "regular_files ?fs' (asc ''Fetched_Images'') = [(asc ''b.png'', [1]), (asc ''a.png'', [2])]"
    by (simp add: regular_files_def)
  with d successful_download_writes [OF d] show ?thesis by blast
qed

text \<open>
  C9 as the specification words it fails: the directory holds \<open>a.png\<close> with the byte
  1, the download of \<open>http://x/a.png\<close> brings the byte 2, no digest matches, and the
  old \<open>a.png\<close> is overwritten.
\<close>

theorem different_content_overwritten_counterexample:
  "download_image (\<lambda>b. b) (\<lambda>s. 0)
     (\<lambda>u. Inr \<lparr>url = u, status_code = 200, reason = asc ''OK'',
        header_content_type = Some (asc ''image/png''), header_content_length = None,
        content = Inr [2]\<rparr>)
     (asc ''http://x/a.png'') (asc ''Fetched_Images'') True
     ((\<lambda>p. Missing)(asc ''Fetched_Images'' := Directory [(asc ''a.png'', File [1])])) =
   ((\<lambda>p. Missing)(asc ''Fetched_Images'' := Directory [(asc ''a.png'', File [2])]),
    Inr (True, check_mark @ asc '' Successfully fetched: a.png (0.0 KB)'' @ [10]
                 @ check_mark @ asc '' Image saved to Fetched_Images/a.png''))"
  by (simp add: eval_download eval_validate eval_url)

end
